theory Spec2Isabelle
  imports Main "HOL-Library.Word"
begin

section \<open>FuncXClient: the task-group id chosen at construction\<close>

text \<open>
  \<^verbatim>\<open>task_group_id: t.Union[None, uuid.UUID, str] = None\<close>: the three shapes the
  constructor argument may take. A UUID is its 128-bit integer.
\<close>

type_synonym uuid = "128 word"

datatype task_group_arg = NoneArg | UuidArg uuid | StrArg string

definition hexdigit :: "nat \<Rightarrow> char" where
  "hexdigit d = ''0123456789abcdef'' ! (d mod 16)"

fun hex_pad :: "nat \<Rightarrow> nat \<Rightarrow> string" where
  "hex_pad 0 n = []"
| "hex_pad (Suc k) n = hex_pad k (n div 16) @ [hexdigit n]"

text \<open>
  \<^verbatim>\<open>UUID.__str__\<close>: the 32 lower-case hex digits of the integer, grouped 8-4-4-4-12.
\<close>

definition uuid_str :: "uuid \<Rightarrow> string" where
  "uuid_str u =
     (let h = hex_pad 32 (unat u)
      in take 8 h @ ''-'' @ take 4 (drop 8 h) @ ''-'' @ take 4 (drop 12 h) @ ''-''
         @ take 4 (drop 16 h) @ ''-'' @ drop 20 h)"

text \<open>Python truth value and \<^verbatim>\<open>str()\<close> of the argument.\<close>

fun truthy :: "task_group_arg \<Rightarrow> bool" where
  "truthy NoneArg = False"
| "truthy (UuidArg u) = True"
| "truthy (StrArg s) = (s \<noteq> [])"

fun py_str :: "task_group_arg \<Rightarrow> string" where
  "py_str NoneArg = ''None''"
| "py_str (UuidArg u) = uuid_str u"
| "py_str (StrArg s) = s"

text \<open>
  \<^verbatim>\<open>task_group_id and str(task_group_id) or str(uuid.uuid4())\<close>. \<open>a and b or c\<close> is
  \<open>c\<close> when \<open>a\<close> is falsy, and also when \<open>a\<close> is truthy and \<open>b\<close> is falsy (an empty
  string). \<open>fresh\<close> is the UUID that \<^verbatim>\<open>uuid.uuid4()\<close> draws.
\<close>

definition choose_task_group_id :: "task_group_arg \<Rightarrow> uuid \<Rightarrow> string" where
  "choose_task_group_id task_group_id fresh =
     (if truthy task_group_id
      then (if py_str task_group_id \<noteq> [] then py_str task_group_id else uuid_str fresh)
      else uuid_str fresh)"

section \<open>FuncXClient: data\<close>

text \<open>
  JSON values as the web service returns them and \<^verbatim>\<open>json.loads\<close> builds them. A dict
  is the list of its items (keys distinct, as in a Python dict); numbers are integers.
\<close>

datatype jval =
    JNull
  | JBool bool
  | JNum int
  | JStr string
  | JArr "jval list"
  | JObj "(string \<times> jval) list"

text \<open>
  The exceptions that \<^verbatim>\<open>client.py\<close> raises or lets through. \<open>ServiceError\<close> stands
  for whatever the web client, \<^verbatim>\<open>json.loads\<close> or \<^verbatim>\<open>handle_response_errors\<close> raise.
\<close>

datatype error =
    ValueError string
  | SerializationError string
  | FuncxTaskExecutionFailed jval jval
  | KeyError string
  | TypeError
  | AttributeError
  | AssertionError string
  | VersionMismatch string
  | InvalidVersion string
  | NotImplementedError string
  | ServiceError string

text \<open>The calls made on \<^verbatim>\<open>self.web_client\<close>, each one a request to the service.\<close>

datatype request =
    GetVersion
  | GetTask string
  | GetBatchStatus "string list"
  | Submit jval
  | RegisterEndpoint string string jval "string option"

text \<open>
  An entry of \<^verbatim>\<open>_task_status_table\<close>: the dict
  \<^verbatim>\<open>{"pending": ..., "status": ...}\<close>, with \<^verbatim>\<open>"result"\<close> and \<^verbatim>\<open>"completion_t"\<close>
  added together for a finished task.
\<close>

record 'obj task_status =
  ts_pending :: bool
  ts_status :: string
  ts_result :: "'obj option"
  ts_completion_t :: "jval option"

text \<open>
  The fields of \<^verbatim>\<open>self\<close> that the methods below read or write. \<open>web_calls\<close> is
  the record of calls made on \<^verbatim>\<open>self.web_client\<close>, oldest first; \<open>polled_tasks\<close> and
  \<open>polled_task_groups\<close> are what \<^verbatim>\<open>self.ws_polling_task\<close> was given.
\<close>

record 'obj client =
  task_status_table :: "string \<rightharpoonup> 'obj task_status"
  session_task_group_id :: string
  asynchronous :: bool
  web_calls :: "request list"
  polled_tasks :: "jval list"
  polled_task_groups :: "jval list"

text \<open>
  What \<^verbatim>\<open>client.py\<close> imports and does not define: the package version, the random
  source of \<^verbatim>\<open>uuid.uuid4\<close>, the answers of the web service (each may depend on the
  calls made before), \<^verbatim>\<open>json.loads\<close>, \<^verbatim>\<open>FuncXSerializer.deserialize\<close> (\<open>None\<close> when
  it raises), \<^verbatim>\<open>handle_response_errors\<close> (\<open>None\<close> when it returns).
\<close>

record 'obj env =
  sdk_version :: string
  uuid4 :: uuid
  ws_get_version :: "request list \<Rightarrow> error + jval"
  ws_get_task :: "request list \<Rightarrow> string \<Rightarrow> error + string"
  ws_get_batch_status :: "request list \<Rightarrow> string list \<Rightarrow> error + jval"
  ws_submit :: "request list \<Rightarrow> jval \<Rightarrow> error + jval"
  ws_register_endpoint :: "request list \<Rightarrow> request \<Rightarrow> error + jval"
  json_loads :: "string \<Rightarrow> error + jval"
  deserialize :: "jval \<Rightarrow> 'obj option"
  handle_response_errors :: "jval \<Rightarrow> error option"

text \<open>
  A \<^verbatim>\<open>Batch\<close>: its tasks and the request body that \<^verbatim>\<open>batch.prepare()\<close> builds from
  them (the class is defined in \<^verbatim>\<open>batch.py\<close>).
\<close>

record batch =
  batch_task_group_id :: string
  tasks :: "jval list"
  prepare :: jval

subsection \<open>Python primitives\<close>

text \<open>\<^verbatim>\<open>d[k]\<close>: \<^verbatim>\<open>KeyError\<close> on a dict without the key, \<^verbatim>\<open>TypeError\<close> on a value
  that a string cannot index.\<close>

fun subscript :: "jval \<Rightarrow> string \<Rightarrow> error + jval" where
  "subscript (JObj kvs) k = (case map_of kvs k of None \<Rightarrow> Inl (KeyError k) | Some v \<Rightarrow> Inr v)"
| "subscript _ k = Inl TypeError"

text \<open>\<^verbatim>\<open>str.lower\<close> on ASCII letters.\<close>

definition lower_char :: "char \<Rightarrow> char" where
  "lower_char ch =
     (let n = (of_char ch :: nat)
      in if 65 \<le> n \<and> n \<le> 90 then char_of (n + 32) else ch)"

definition lower :: "string \<Rightarrow> string" where
  "lower s = map lower_char s"

text \<open>\<^verbatim>\<open>for x in v\<close>: the elements of a list, the keys of a dict, the characters of a
  string; \<^verbatim>\<open>TypeError\<close> otherwise.\<close>

fun iterate :: "jval \<Rightarrow> error + jval list" where
  "iterate (JArr xs) = Inr xs"
| "iterate (JObj kvs) = Inr (map (\<lambda>kv. JStr (fst kv)) kvs)"
| "iterate (JStr s) = Inr (map (\<lambda>ch. JStr [ch]) s)"
| "iterate _ = Inl TypeError"

subsection \<open>Version comparison\<close>

text \<open>
  A release such as \<^verbatim>\<open>"1.0.12"\<close> is read as its list of numbers; a shorter release
  is padded with zeros, so \<^verbatim>\<open>"1.0"\<close> and \<^verbatim>\<open>"1.0.0"\<close> are the same version.
\<close>

definition digit_val :: "char \<Rightarrow> nat option" where
  "digit_val ch =
     (let n = (of_char ch :: nat) in if 48 \<le> n \<and> n \<le> 57 then Some (n - 48) else None)"

fun parse_nat_acc :: "nat \<Rightarrow> string \<Rightarrow> nat option" where
  "parse_nat_acc acc [] = Some acc"
| "parse_nat_acc acc (ch # cs) =
     (case digit_val ch of None \<Rightarrow> None | Some d \<Rightarrow> parse_nat_acc (10 * acc + d) cs)"

definition parse_nat :: "string \<Rightarrow> nat option" where
  "parse_nat s = (if s = [] then None else parse_nat_acc 0 s)"

fun split_dots :: "string \<Rightarrow> string \<Rightarrow> string list" where
  "split_dots cur [] = [rev cur]"
| "split_dots cur (ch # cs) =
     (if ch = CHR ''.'' then rev cur # split_dots [] cs else split_dots (ch # cur) cs)"

fun parse_all :: "string list \<Rightarrow> nat list option" where
  "parse_all [] = Some []"
| "parse_all (p # ps) =
     (case parse_nat p of None \<Rightarrow> None
      | Some n \<Rightarrow> (case parse_all ps of None \<Rightarrow> None | Some ns \<Rightarrow> Some (n # ns)))"

definition parse_version :: "string \<Rightarrow> nat list option" where
  "parse_version s = parse_all (split_dots [] s)"

fun release_less :: "nat list \<Rightarrow> nat list \<Rightarrow> bool" where
  "release_less [] [] = False"
| "release_less [] (y # ys) = (0 < y \<or> release_less [] ys)"
| "release_less (x # xs) [] = False"
| "release_less (x # xs) (y # ys) = (x < y \<or> (x = y \<and> release_less xs ys))"


text \<open>
  Modelled from the spec: \<^verbatim>\<open>funcx.version.compare_versions\<close> is imported by
  \<^verbatim>\<open>client.py\<close> and defined elsewhere. The spec has a version older than the minimum
  the service reports as fatal: the function raises \<^verbatim>\<open>VersionMismatch\<close> then, and
  returns otherwise. A version that does not parse is an error of its own.
\<close>

definition compare_versions :: "string \<Rightarrow> jval \<Rightarrow> string \<Rightarrow> error option" where
  "compare_versions current min_version package_name =
     (case min_version of
        JStr m \<Rightarrow>
          (case (parse_version current, parse_version m) of
             (Some c, Some r) \<Rightarrow>
               if release_less c r then Some (VersionMismatch package_name) else None
           | _ \<Rightarrow> Some (InvalidVersion package_name))
      | _ \<Rightarrow> Some TypeError)"

section \<open>FuncXClient: methods\<close>

text \<open>Recording a call on the web client.\<close>

definition called :: "request \<Rightarrow> 'obj client \<Rightarrow> 'obj client" where
  "called rq c = c\<lparr>web_calls := web_calls c @ [rq]\<rparr>"

text \<open>
  \<^verbatim>\<open>version_check(self, endpoint_version=None)\<close>: one \<^verbatim>\<open>GET /version\<close>, the two
  minimum versions read from the answer, the SDK's version compared first, the
  endpoint's only when one is given.
\<close>

definition version_check ::
  "'obj env \<Rightarrow> 'obj client \<Rightarrow> string option \<Rightarrow> (error + unit) \<times> 'obj client" where
  "version_check env c endpoint_version =
     (let c1 = called GetVersion c in
      case ws_get_version env (web_calls c) of
        Inl e \<Rightarrow> (Inl e, c1)
      | Inr data \<Rightarrow>
          (case subscript data ''min_ep_version'' of
             Inl e \<Rightarrow> (Inl e, c1)
           | Inr min_ep_version \<Rightarrow>
               (case subscript data ''min_sdk_version'' of
                  Inl e \<Rightarrow> (Inl e, c1)
                | Inr min_sdk_version \<Rightarrow>
                    (case compare_versions (sdk_version env) min_sdk_version ''funcx'' of
                       Some e \<Rightarrow> (Inl e, c1)
                     | None \<Rightarrow>
                         (case endpoint_version of
                            None \<Rightarrow> (Inr (), c1)
                          | Some v \<Rightarrow>
                              (case compare_versions v min_ep_version ''funcx-endpoint'' of
                                 Some e \<Rightarrow> (Inl e, c1)
                               | None \<Rightarrow> (Inr (), c1)))))))"

text \<open>
  \<^verbatim>\<open>__init__\<close>: the table starts empty, the task-group id is chosen, the web client
  is obtained, and the version check runs when \<open>do_version_check\<close> is set. An
  exception leaves no client. URL resolution, the deprecation warnings and the login
  flow touch none of the fields modelled here.
\<close>

definition new_client :: "'obj env \<Rightarrow> task_group_arg \<Rightarrow> 'obj client" where
  "new_client env task_group_id =
     \<lparr>task_status_table = Map.empty,
      session_task_group_id = choose_task_group_id task_group_id (uuid4 env),
      asynchronous = False,
      web_calls = [],
      polled_tasks = [],
      polled_task_groups = []\<rparr>"

definition init ::
  "'obj env \<Rightarrow> task_group_arg \<Rightarrow> bool \<Rightarrow> bool \<Rightarrow> error + 'obj client" where
  "init env task_group_id do_version_check asynchronous_arg =
     (let c0 = new_client env task_group_id
      in if do_version_check
         then (case version_check env c0 None of
                 (Inl e, _) \<Rightarrow> Inl e
               | (Inr _, c1) \<Rightarrow> Inr (c1\<lparr>asynchronous := asynchronous_arg\<rparr>))
         else Inr (c0\<lparr>asynchronous := asynchronous_arg\<rparr>))"

text \<open>
  \<^verbatim>\<open>register_endpoint\<close>: \<^verbatim>\<open>self.version_check()\<close> with no argument, then the
  registration request, whose data is returned.
\<close>

definition register_endpoint ::
  "'obj env \<Rightarrow> 'obj client \<Rightarrow> string \<Rightarrow> string \<Rightarrow> jval \<Rightarrow> string option
     \<Rightarrow> (error + jval) \<times> 'obj client" where
  "register_endpoint env c name endpoint_id metadata endpoint_version =
     (case version_check env c None of
        (Inl e, c1) \<Rightarrow> (Inl e, c1)
      | (Inr _, c1) \<Rightarrow>
          (let rq = RegisterEndpoint name endpoint_id metadata endpoint_version
           in (ws_register_endpoint env (web_calls c1) rq, called rq c1)))"

subsection \<open>The task status table\<close>

text \<open>
  \<^verbatim>\<open>r_dict.get("status", "unknown").lower()\<close>: the default when the key is absent,
  \<^verbatim>\<open>AttributeError\<close> when the value is not a string.
\<close>

definition read_status :: "(string \<times> jval) list \<Rightarrow> error + string" where
  "read_status r_dict =
     (case map_of r_dict ''status'' of
        None \<Rightarrow> Inr (lower ''unknown'')
      | Some (JStr s) \<Rightarrow> Inr (lower s)
      | Some _ \<Rightarrow> Inl AttributeError)"

text \<open>
  Lines 233 to 251 of \<^verbatim>\<open>_update_task_table\<close>: the status dict built from the parsed
  message. A finished task needs a result or an exception, then its completion time;
  a result is deserialized, an exception is raised to the caller.
\<close>

definition build_status :: "'obj env \<Rightarrow> (string \<times> jval) list \<Rightarrow> error + 'obj task_status" where
  "build_status env r_dict =
     (case read_status r_dict of
        Inl e \<Rightarrow> Inl e
      | Inr r_status \<Rightarrow>
          (let is_pending = (r_status \<noteq> ''success'' \<and> r_status \<noteq> ''failed'');
               status = \<lparr>ts_pending = is_pending, ts_status = r_status,
                         ts_result = None, ts_completion_t = None\<rparr>
           in if is_pending then Inr status
              else if map_of r_dict ''result'' = None \<and> map_of r_dict ''exception'' = None
              then Inl (ValueError ''non-pending result is missing result data'')
              else (case map_of r_dict ''completion_t'' of
                      None \<Rightarrow> Inl (KeyError ''completion_t'')
                    | Some completion_t \<Rightarrow>
                        (case map_of r_dict ''result'' of
                           Some res \<Rightarrow>
                             (case deserialize env res of
                                None \<Rightarrow> Inl (SerializationError ''Result Object Deserialization'')
                              | Some r_obj \<Rightarrow>
                                  Inr (status\<lparr>ts_result := Some r_obj,
                                             ts_completion_t := Some completion_t\<rparr>))
                         | None \<Rightarrow>
                             (case map_of r_dict ''exception'' of
                                Some exc \<Rightarrow> Inl (FuncxTaskExecutionFailed exc completion_t)
                              | None \<Rightarrow> Inl (NotImplementedError ''unreachable''))))))"

text \<open>
  \<^verbatim>\<open>_update_task_table(self, return_msg, task_id)\<close>: a string message goes through
  \<^verbatim>\<open>json.loads\<close>; \<^verbatim>\<open>.get\<close> needs a dict; the table is assigned on the last line
  before the return.
\<close>

text \<open>A message of a finished task: its status is \<^verbatim>\<open>success\<close> or \<^verbatim>\<open>failed\<close>.\<close>

definition non_pending :: "(string \<times> jval) list \<Rightarrow> bool" where
  "non_pending r_dict \<longleftrightarrow>
     read_status r_dict = Inr ''success'' \<or> read_status r_dict = Inr ''failed''"

definition load_message :: "'obj env \<Rightarrow> jval \<Rightarrow> error + jval" where
  "load_message env return_msg =
     (case return_msg of JStr text \<Rightarrow> json_loads env text | _ \<Rightarrow> Inr return_msg)"

definition update_task_table ::
  "'obj env \<Rightarrow> 'obj client \<Rightarrow> jval \<Rightarrow> string \<Rightarrow> (error + 'obj task_status) \<times> 'obj client" where
  "update_task_table env c return_msg task_id =
     (case load_message env return_msg of
        Inl e \<Rightarrow> (Inl e, c)
      | Inr (JObj r_dict) \<Rightarrow>
          (case build_status env r_dict of
             Inl e \<Rightarrow> (Inl e, c)
           | Inr status \<Rightarrow>
               (Inr status,
                c\<lparr>task_status_table := (task_status_table c)(task_id \<mapsto> status)\<rparr>))
      | Inr _ \<Rightarrow> (Inl AttributeError, c))"

text \<open>
  \<^verbatim>\<open>get_task\<close>: \<^verbatim>\<open>task.get("pending", True) is False\<close> holds for a cached entry
  that is not pending; every other task is asked of the service.
\<close>

definition get_task ::
  "'obj env \<Rightarrow> 'obj client \<Rightarrow> string \<Rightarrow> (error + 'obj task_status) \<times> 'obj client" where
  "get_task env c task_id =
     (let cached = (case task_status_table c task_id of
                      None \<Rightarrow> None
                    | Some task \<Rightarrow> if ts_pending task then None else Some task)
      in case cached of
           Some task \<Rightarrow> (Inr task, c)
         | None \<Rightarrow>
             (let c1 = called (GetTask task_id) c in
              case ws_get_task env (web_calls c) task_id of
                Inl e \<Rightarrow> (Inl e, c1)
              | Inr text \<Rightarrow> update_task_table env c1 (JStr text) task_id))"

text \<open>\<^verbatim>\<open>self._task_status_table.get(task_id, {}).get("pending", True) is True\<close>\<close>

definition still_pending :: "'obj client \<Rightarrow> string \<Rightarrow> bool" where
  "still_pending c task_id =
     (case task_status_table c task_id of None \<Rightarrow> True | Some task \<Rightarrow> ts_pending task)"

text \<open>
  The loop of \<^verbatim>\<open>get_batch_result\<close>. For an id that was pending, a \<^verbatim>\<open>KeyError\<close> and
  any other exception of the lookup or of \<^verbatim>\<open>_update_task_table\<close> are logged and the
  loop goes on; another id is answered from the table.
\<close>

fun batch_result_loop ::
  "'obj env \<Rightarrow> jval \<Rightarrow> string list \<Rightarrow> string list \<Rightarrow> (string \<rightharpoonup> 'obj task_status)
     \<Rightarrow> 'obj client \<Rightarrow> (error + (string \<rightharpoonup> 'obj task_status)) \<times> 'obj client" where
  "batch_result_loop env r pending_task_ids [] results c = (Inr results, c)"
| "batch_result_loop env r pending_task_ids (task_id # rest) results c =
     (if task_id \<in> set pending_task_ids
      then (case subscript r ''results'' of
              Inl e \<Rightarrow> batch_result_loop env r pending_task_ids rest results c
            | Inr rs \<Rightarrow>
                (case subscript rs task_id of
                   Inl e \<Rightarrow> batch_result_loop env r pending_task_ids rest results c
                 | Inr data \<Rightarrow>
                     (case update_task_table env c data task_id of
                        (Inl e, c1) \<Rightarrow> batch_result_loop env r pending_task_ids rest results c1
                      | (Inr rets, c1) \<Rightarrow>
                          batch_result_loop env r pending_task_ids rest
                            (results(task_id \<mapsto> rets)) c1)))
      else (case task_status_table c task_id of
              None \<Rightarrow> (Inl (KeyError task_id), c)
            | Some task \<Rightarrow>
                batch_result_loop env r pending_task_ids rest (results(task_id \<mapsto> task)) c))"

text \<open>
  \<^verbatim>\<open>get_batch_result\<close>: the service is asked once, for the pending ids, and only
  when there is one. Without a request \<open>r\<close> is never read (\<open>JNull\<close> stands for it).
\<close>

definition get_batch_result ::
  "'obj env \<Rightarrow> 'obj client \<Rightarrow> string list
     \<Rightarrow> (error + (string \<rightharpoonup> 'obj task_status)) \<times> 'obj client" where
  "get_batch_result env c task_id_list =
     (let pending_task_ids = filter (still_pending c) task_id_list
      in if pending_task_ids = []
         then batch_result_loop env JNull pending_task_ids task_id_list Map.empty c
         else (let c1 = called (GetBatchStatus pending_task_ids) c in
               case ws_get_batch_status env (web_calls c) pending_task_ids of
                 Inl e \<Rightarrow> (Inl e, c1)
               | Inr r \<Rightarrow> batch_result_loop env r pending_task_ids task_id_list Map.empty c1))"

subsection \<open>Batch submission\<close>

text \<open>
  The loop of \<^verbatim>\<open>batch_run\<close> over \<^verbatim>\<open>r["results"]\<close>: the task id is kept, and an
  entry whose \<^verbatim>\<open>http_status_code\<close> is not 200 goes to
  \<^verbatim>\<open>handle_response_errors\<close>; the loop ends at the first exception.
\<close>

fun collect_task_uuids :: "'obj env \<Rightarrow> jval list \<Rightarrow> jval list \<Rightarrow> error + jval list" where
  "collect_task_uuids env [] task_uuids = Inr task_uuids"
| "collect_task_uuids env (result # rest) task_uuids =
     (case subscript result ''task_uuid'' of
        Inl e \<Rightarrow> Inl e
      | Inr task_id \<Rightarrow>
          (case subscript result ''http_status_code'' of
             Inl e \<Rightarrow> Inl e
           | Inr code \<Rightarrow>
               if code \<noteq> JNum 200
               then (case handle_response_errors env result of
                       Some e \<Rightarrow> Inl e
                     | None \<Rightarrow> collect_task_uuids env rest (task_uuids @ [task_id]))
               else collect_task_uuids env rest (task_uuids @ [task_id])))"

datatype submitted = TaskIds "jval list" | AsyncTasks "jval list"

text \<open>
  \<^verbatim>\<open>batch_run\<close>: a non-empty batch, one submit request, the loop above, and in
  asynchronous mode one polled task per id and the task group of the answer.
\<close>

definition batch_run :: "'obj env \<Rightarrow> 'obj client \<Rightarrow> batch \<Rightarrow> (error + submitted) \<times> 'obj client" where
  "batch_run env c b =
     (if tasks b = [] then (Inl (AssertionError ''Requires a non-empty batch''), c)
      else
        (let data = prepare b; c1 = called (Submit data) c in
         case ws_submit env (web_calls c) data of
           Inl e \<Rightarrow> (Inl e, c1)
         | Inr r \<Rightarrow>
             (case subscript r ''results'' of
                Inl e \<Rightarrow> (Inl e, c1)
              | Inr rs \<Rightarrow>
                  (case iterate rs of
                     Inl e \<Rightarrow> (Inl e, c1)
                   | Inr entries \<Rightarrow>
                       (case collect_task_uuids env entries [] of
                          Inl e \<Rightarrow> (Inl e, c1)
                        | Inr task_uuids \<Rightarrow>
                            if asynchronous c1
                            then (case subscript r ''task_group_id'' of
                                    Inl e \<Rightarrow> (Inl e, c1)
                                  | Inr task_group_id \<Rightarrow>
                                      (Inr (AsyncTasks task_uuids),
                                       c1\<lparr>polled_tasks := polled_tasks c1 @ task_uuids,
                                          polled_task_groups :=
                                            polled_task_groups c1 @ [task_group_id]\<rparr>))
                            else (Inr (TaskIds task_uuids), c1))))))"

section \<open>Scaling strategy\<close>

text \<open>
  The parameters that \<^verbatim>\<open>docs/configs/polaris.py\<close> sets (\<open>init_blocks\<close>,
  \<open>min_blocks\<close>, \<open>max_blocks\<close>, \<open>max_idletime\<close>, and the tasks one block runs at a
  time), what a tick observes, and what it tells the provider.
\<close>

record strategy_config =
  min_blocks :: nat
  max_blocks :: nat
  init_blocks :: nat
  max_idletime :: nat
  tasks_per_block :: nat

record observation =
  outstanding :: nat
  idle_time :: nat

datatype command = ScaleOut nat | ScaleIn nat | Hold

text \<open>The initial block count lies within the limits.\<close>

definition starts_within_limits :: "strategy_config \<Rightarrow> bool" where
  "starts_within_limits cfg \<longleftrightarrow>
     min_blocks cfg \<le> init_blocks cfg \<and> init_blocks cfg \<le> max_blocks cfg"

text \<open>
  Modelled from the spec: \<^verbatim>\<open>SimpleStrategy\<close> is defined in the endpoint package,
  which is not among the sources. The blocks that cover \<open>n\<close> outstanding tasks, rounded
  up; a block runs at least one task at a time.
\<close>

definition blocks_to_cover :: "strategy_config \<Rightarrow> nat \<Rightarrow> nat" where
  "blocks_to_cover cfg n =
     (let k = max 1 (tasks_per_block cfg) in (n + k - 1) div k)"

text \<open>
  Modelled from the spec: enough blocks to cover the outstanding tasks, up to
  \<open>max_blocks\<close>.
\<close>

definition target_blocks :: "strategy_config \<Rightarrow> observation \<Rightarrow> nat" where
  "target_blocks cfg obs = min (max_blocks cfg) (blocks_to_cover cfg (outstanding obs))"

text \<open>
  Modelled from the spec: the Simple strategy's policy (\<^verbatim>\<open>SimpleStrategy\<close> is
  configured in \<^verbatim>\<open>docs/configs/polaris.py\<close> and defined in the endpoint package,
  which is not among the sources). Each tick observes the outstanding tasks and the
  idle time since the last task; enough blocks are kept to cover the outstanding
  tasks, up to \<open>max_blocks\<close>; after \<open>max_idletime\<close> seconds without a submission the
  pool is scaled down to \<open>min_blocks\<close>; when a tick sees both signals, scaling out wins.
\<close>

definition decide :: "strategy_config \<Rightarrow> nat \<Rightarrow> observation \<Rightarrow> command" where
  "decide cfg blocks obs =
     (let target = target_blocks cfg obs;
          scale_out = (blocks < target);
          scale_in = (max_idletime cfg \<le> idle_time obs \<and> min_blocks cfg < blocks)
      in if scale_out then ScaleOut (target - blocks)
         else if scale_in then ScaleIn (blocks - min_blocks cfg)
         else Hold)"

text \<open>
  Modelled from the spec: the provider behind the executor carries out
  \<open>scale_out(n)\<close> and \<open>scale_in(n)\<close>.
\<close>

fun apply_command :: "nat \<Rightarrow> command \<Rightarrow> nat" where
  "apply_command blocks (ScaleOut n) = blocks + n"
| "apply_command blocks (ScaleIn n) = blocks - n"
| "apply_command blocks Hold = blocks"

text \<open>Modelled from the spec: one tick of the control loop, decision and effect.\<close>

definition tick :: "strategy_config \<Rightarrow> nat \<Rightarrow> observation \<Rightarrow> nat" where
  "tick cfg blocks obs = apply_command blocks (decide cfg blocks obs)"

text \<open>Modelled from the spec: the block count after a run of ticks, from
  \<open>init_blocks\<close>; the reachable states of the control loop are these.\<close>

definition run_strategy :: "strategy_config \<Rightarrow> observation list \<Rightarrow> nat" where
  "run_strategy cfg obss = foldl (tick cfg) (init_blocks cfg) obss"

section \<open>Interchange: tasks in, results out\<close>

text \<open>
  The two messages that \<^verbatim>\<open>test_interchange_with_rabbit.py\<close> exchanges with the
  Interchange, \<^verbatim>\<open>Task(task_id, task_buffer)\<close> and \<^verbatim>\<open>Result(task_id, data)\<close>, and
  the wire format of a result, a parameter.
\<close>

record task_message =
  tm_task_id :: string
  tm_task_buffer :: string

record result_message =
  rm_task_id :: string
  rm_data :: string

record codec =
  pack :: "result_message \<Rightarrow> string"
  unpack :: "string \<Rightarrow> result_message option"

text \<open>
  Modelled from the spec: \<^verbatim>\<open>MockExecutor\<close> is imported by the test and defined with
  the endpoint's tests, not among the sources. The spec has it an identity function:
  its result carries the task's id and echoes the task buffer.
\<close>

definition mock_executor :: "task_message \<Rightarrow> result_message" where
  "mock_executor t = \<lparr>rm_task_id = tm_task_id t, rm_data = tm_task_buffer t\<rparr>"

text \<open>
  The broker's task queue, the tasks inside the executor, the results it has yielded,
  the spool (each entry with whether its publish was confirmed) and the broker's
  result queue.
\<close>

record ix_state =
  task_queue :: "task_message list"
  in_flight :: "task_message list"
  yielded :: "(string \<times> string) list"
  spool :: "(string \<times> string \<times> bool) list"
  result_queue :: "string list"

text \<open>The tasks \<open>ts\<close> have been published; nothing else has happened.\<close>

definition ix_init :: "task_message list \<Rightarrow> ix_state" where
  "ix_init ts = \<lparr>task_queue = ts, in_flight = [], yielded = [], spool = [], result_queue = []\<rparr>"

text \<open>
  Modelled from the spec: the flows of \<^verbatim>\<open>EndpointInterchange\<close>, which the test
  starts and the endpoint package defines, not among the sources. Ingress consumes a
  task and submits it to the executor; the executor yields \<open>(task_id, result_body)\<close>
  pairs in completion order, whatever the order of submission; egress writes each to
  the spool, then publishes it (at least once), then deletes the spool entry, only
  after a confirmed publish.
\<close>

inductive ix_step :: "codec \<Rightarrow> ix_state \<Rightarrow> ix_state \<Rightarrow> bool" for cd :: codec where
  ingress:
    "task_queue s = t # q \<Longrightarrow>
     ix_step cd s (s\<lparr>task_queue := q, in_flight := in_flight s @ [t]\<rparr>)"
| complete:
    "t \<in> set (in_flight s) \<Longrightarrow>
     ix_step cd s (s\<lparr>in_flight := remove1 t (in_flight s),
                      yielded := yielded s @ [(tm_task_id t, pack cd (mock_executor t))]\<rparr>)"
| spool_put:
    "yielded s = (i, body) # rest \<Longrightarrow>
     ix_step cd s (s\<lparr>yielded := rest, spool := spool s @ [(i, body, False)]\<rparr>)"
| publish:
    "spool s = (i, body, confirmed) # rest \<Longrightarrow>
     ix_step cd s (s\<lparr>spool := (i, body, True) # rest,
                      result_queue := result_queue s @ [body]\<rparr>)"
| spool_delete:
    "spool s = (i, body, True) # rest \<Longrightarrow>
     ix_step cd s (s\<lparr>spool := rest\<rparr>)"

code_pred ix_step .

text \<open>The states a run reaches after the tasks \<open>ts\<close> were published.\<close>

definition ix_reachable :: "codec \<Rightarrow> task_message list \<Rightarrow> ix_state \<Rightarrow> bool" where
  "ix_reachable cd ts s \<longleftrightarrow> (ix_step cd)\<^sup>*\<^sup>* (ix_init ts) s"

text \<open>Every body that the run has produced so far is the packed echo of a published task.\<close>

definition echoes :: "codec \<Rightarrow> task_message list \<Rightarrow> string \<Rightarrow> bool" where
  "echoes cd ts body \<longleftrightarrow> (\<exists>t \<in> set ts. body = pack cd (mock_executor t))"

text \<open>Nothing but tasks of \<open>ts\<close> and their echoes is anywhere in the state.\<close>

definition ix_inv :: "codec \<Rightarrow> task_message list \<Rightarrow> ix_state \<Rightarrow> bool" where
  "ix_inv cd ts s \<longleftrightarrow>
     set (task_queue s) \<subseteq> set ts \<and> set (in_flight s) \<subseteq> set ts
     \<and> (\<forall>e \<in> set (yielded s). echoes cd ts (snd e))
     \<and> (\<forall>e \<in> set (spool s). echoes cd ts (fst (snd e)))
     \<and> (\<forall>body \<in> set (result_queue s). echoes cd ts body)"

text \<open>Nothing is left to do: every queue between the two broker queues is empty.\<close>

definition quiescent :: "ix_state \<Rightarrow> bool" where
  "quiescent s \<longleftrightarrow> task_queue s = [] \<and> in_flight s = [] \<and> yielded s = [] \<and> spool s = []"

text \<open>
  Every published task is still on its way or its result is on the result queue, and
  a spool entry whose publish was confirmed is on the result queue.
\<close>

definition ix_owed :: "codec \<Rightarrow> task_message list \<Rightarrow> ix_state \<Rightarrow> bool" where
  "ix_owed cd ts s \<longleftrightarrow>
     (\<forall>t \<in> set ts.
        t \<in> set (task_queue s) \<or> t \<in> set (in_flight s)
        \<or> (tm_task_id t, pack cd (mock_executor t)) \<in> set (yielded s)
        \<or> (\<exists>confirmed. (tm_task_id t, pack cd (mock_executor t), confirmed) \<in> set (spool s))
        \<or> pack cd (mock_executor t) \<in> set (result_queue s))
     \<and> (\<forall>e \<in> set (spool s). snd (snd e) \<longrightarrow> fst (snd e) \<in> set (result_queue s))"

text \<open>The state with only the two broker queues filled.\<close>

definition between_tasks :: "task_message list \<Rightarrow> string list \<Rightarrow> ix_state" where
  "between_tasks q rq =
     \<lparr>task_queue = q, in_flight = [], yielded = [], spool = [], result_queue = rq\<rparr>"

section \<open>Sample values\<close>

text \<open>
  A service that accepts every version, reports every task it is asked about alone as
  finished and every task of a batch query as running, and answers a batch submission
  with one accepted and two rejected tasks, the second of them with the status
  \<^verbatim>\<open>Failed\<close>. Its \<open>handle_response_errors\<close> raises for an entry with that status, an
  error naming the entry's task, and returns for any other.
\<close>

definition sample_env :: "nat env" where
  "sample_env =
     \<lparr>sdk_version = ''1.0.5'',
      uuid4 = 7,
      ws_get_version = (\<lambda>h. Inr (JObj [(''api'', JStr ''0.4.0''),
                                        (''min_ep_version'', JStr ''0.0.0''),
                                        (''min_sdk_version'', JStr ''0.0.0'')])),
      ws_get_task = (\<lambda>h t. Inr ''x''),
      ws_get_batch_status =
        (\<lambda>h ts. Inr (JObj [(''results'',
                              JObj (map (\<lambda>t. (t, JObj [(''status'', JStr ''running'')])) ts))])),
      ws_submit =
        (\<lambda>h d. Inr (JObj [(''results'',
           JArr [JObj [(''task_uuid'', JStr ''a''), (''http_status_code'', JNum 200)],
                 JObj [(''task_uuid'', JStr ''b''), (''http_status_code'', JNum 500)],
                 JObj [(''task_uuid'', JStr ''c''), (''http_status_code'', JNum 404),
                       (''status'', JStr ''Failed'')]])])),
      ws_register_endpoint = (\<lambda>h r. Inr JNull),
      json_loads = (\<lambda>s. Inr (JObj [(''status'', JStr ''SUCCESS''), (''result'', JStr ''r''),
                                    (''completion_t'', JStr ''1'')])),
      deserialize = (\<lambda>j. case j of JStr [] \<Rightarrow> None | JStr s \<Rightarrow> Some (length s) | _ \<Rightarrow> None),
      handle_response_errors =
        (\<lambda>j. if subscript j ''status'' = Inr (JStr ''Failed'')
              then (case subscript j ''task_uuid'' of
                      Inr (JStr s) \<Rightarrow> Some (ServiceError s)
                    | _ \<Rightarrow> Some (ServiceError []))
              else None)\<rparr>"

text \<open>A client of the sample service, before any request.\<close>

definition sample_client :: "nat client" where
  "sample_client = new_client sample_env NoneArg"

text \<open>A client that has cached the result of task \<open>t1\<close>.\<close>

definition done_entry :: "nat task_status" where
  "done_entry = \<lparr>ts_pending = False, ts_status = ''success'',
                  ts_result = Some 3, ts_completion_t = Some (JNum 5)\<rparr>"

definition cached_client :: "nat client" where
  "cached_client = sample_client\<lparr>task_status_table := [''t1'' \<mapsto> done_entry]\<rparr>"

text \<open>A batch of three tasks.\<close>

definition sample_batch :: batch where
  "sample_batch = \<lparr>batch_task_group_id = ''group-1'',
                    tasks = [JStr ''f(1)'', JStr ''f(2)'', JStr ''f(3)''],
                    prepare = JObj [(''task_group_id'', JStr ''group-1'')]\<rparr>"


text \<open>The block limits of \<^verbatim>\<open>docs/configs/polaris.py\<close> with a short idle time, one
  task per block.\<close>

definition sample_config :: strategy_config where
  "sample_config = \<lparr>min_blocks = 0, max_blocks = 2, init_blocks = 0,
                     max_idletime = 2, tasks_per_block = 1\<rparr>"

text \<open>The same limits with five blocks to start with.\<close>

definition oversized_config :: strategy_config where
  "oversized_config = sample_config\<lparr>init_blocks := 5\<rparr>"

text \<open>A wire format for results: the task id, a newline, the data; and the task of
  the round-trip scenario.\<close>

definition line_codec :: codec where
  "line_codec =
     \<lparr>pack = (\<lambda>r. rm_task_id r @ [CHR 0x0A] @ rm_data r),
      unpack = (\<lambda>body.
         if CHR 0x0A \<in> set body
         then Some \<lparr>rm_task_id = takeWhile (\<lambda>ch. ch \<noteq> CHR 0x0A) body,
                    rm_data = tl (dropWhile (\<lambda>ch. ch \<noteq> CHR 0x0A) body)\<rparr>
         else None)\<rparr>"

definition canary :: task_message where
  "canary = \<lparr>tm_task_id = ''T'', tm_task_buffer = ''abc''\<rparr>"

section \<open>Properties of the client\<close>

subsection \<open>The task-group id\<close>

lemma uuid_str_nonempty: "uuid_str u \<noteq> []"
  by (simp add: uuid_str_def Let_def)

lemma py_str_truthy_nonempty: "truthy a \<Longrightarrow> py_str a \<noteq> []"
  by (cases a) (simp_all add: uuid_str_nonempty)

lemma choose_truthy: "truthy a \<Longrightarrow> choose_task_group_id a fresh = py_str a"
  by (simp add: choose_task_group_id_def py_str_truthy_nonempty)

lemma choose_falsy: "\<not> truthy a \<Longrightarrow> choose_task_group_id a fresh = uuid_str fresh"
  by (simp add: choose_task_group_id_def)

lemma falsy_iff: "\<not> truthy a \<longleftrightarrow> a = NoneArg \<or> a = StrArg []"
  by (cases a) simp_all

lemma version_check_snd: "snd (version_check env c v) = called GetVersion c"
  by (simp add: version_check_def Let_def split: sum.splits option.splits)

lemma version_check_state: "version_check env c v = (r, c1) \<Longrightarrow> c1 = called GetVersion c"
  using version_check_snd [of env c v] by simp

lemma init_cases:
  assumes "init env tg dvc asy = Inr c"
  shows "c = (if dvc then called GetVersion (new_client env tg) else new_client env tg)\<lparr>asynchronous := asy\<rparr>"
proof (cases dvc)
  case False
  with assms show ?thesis by (simp add: init_def)
next
  case True
  obtain r c1 where vc: "version_check env (new_client env tg) None = (r, c1)"
    by (cases "version_check env (new_client env tg) None")
  have c1: "c1 = called GetVersion (new_client env tg)"
    using vc by (rule version_check_state)
  from assms True vc have "c = c1\<lparr>asynchronous := asy\<rparr>"
    by (cases r) (simp_all add: init_def)
  with c1 True show ?thesis by simp
qed

lemma init_session:
  "init env tg dvc asy = Inr c \<Longrightarrow>
   session_task_group_id c = choose_task_group_id tg (uuid4 env)"
  by (drule init_cases) (simp add: called_def new_client_def)

lemma init_web_calls:
  "init env tg dvc asy = Inr c \<Longrightarrow> web_calls c = (if dvc then [GetVersion] else [])"
  by (drule init_cases) (simp add: called_def new_client_def)

text \<open>
  C10. A client that has been constructed holds \<open>str(task_group_id)\<close> as its
  session task-group id when the argument is truthy, and the string of the UUID drawn
  by \<^verbatim>\<open>uuid.uuid4()\<close> otherwise; the falsy arguments are \<^verbatim>\<open>None\<close> and the empty
  string, so both get a new id and not the given value.
\<close>

theorem session_task_group_id_at_construction:
  assumes "init env task_group_id do_version_check asynchronous_arg = Inr c"
  shows "(truthy task_group_id \<longrightarrow> session_task_group_id c = py_str task_group_id)
       \<and> (\<not> truthy task_group_id \<longrightarrow> session_task_group_id c = uuid_str (uuid4 env))
       \<and> (\<not> truthy task_group_id \<longleftrightarrow> task_group_id = NoneArg \<or> task_group_id = StrArg [])"
  using init_session [OF assms] by (simp add: choose_truthy choose_falsy falsy_iff)

lemma sample_init_true: "\<exists>c. init sample_env tg True False = Inr c"
  by (simp add: init_def version_check_def sample_env_def Let_def compare_versions_def
        parse_version_def parse_nat_def digit_val_def split: prod.splits)

theorem session_task_group_id_at_construction_witness:
  "map_sum id session_task_group_id (init sample_env (StrArg ''group-1'') True False) = Inr ''group-1''
 \<and> map_sum id session_task_group_id (init sample_env NoneArg True False) = Inr ''00000000-0000-0000-0000-000000000007''
 \<and> map_sum id session_task_group_id (init sample_env (StrArg '''') True False) = Inr ''00000000-0000-0000-0000-000000000007''
 \<and> map_sum id session_task_group_id (init sample_env (UuidArg 1) True False) = Inr ''00000000-0000-0000-0000-000000000001''"
proof -
  have u7: "uuid_str (uuid4 sample_env) = ''00000000-0000-0000-0000-000000000007''"
    by (simp add: sample_env_def) code_simp
  have u1: "uuid_str 1 = ''00000000-0000-0000-0000-000000000001''"
    by code_simp
  obtain c1 where c1: "init sample_env (StrArg ''group-1'') True False = Inr c1"
    using sample_init_true by blast
  obtain c2 where c2: "init sample_env NoneArg True False = Inr c2"
    using sample_init_true by blast
  obtain c3 where c3: "init sample_env (StrArg '''') True False = Inr c3"
    using sample_init_true by blast
  obtain c4 where c4: "init sample_env (UuidArg 1) True False = Inr c4"
    using sample_init_true by blast
  show ?thesis
    using session_task_group_id_at_construction [OF c1]
      session_task_group_id_at_construction [OF c2]
      session_task_group_id_at_construction [OF c3]
      session_task_group_id_at_construction [OF c4]
    by (simp add: c1 c2 c3 c4 u7 u1)
qed

subsection \<open>Version requests\<close>

lemma register_endpoint_calls:
  "\<exists>tail. web_calls (snd (register_endpoint env c name eid md ev)) = web_calls c @ GetVersion # tail
        \<and> GetVersion \<notin> set tail"
proof -
  obtain r c1 where vc: "version_check env c None = (r, c1)"
    by (cases "version_check env c None")
  have c1: "c1 = called GetVersion c"
    using vc by (rule version_check_state)
  show ?thesis
    using vc c1 by (cases r) (simp_all add: register_endpoint_def called_def Let_def)
qed

text \<open>
  C6. A client constructed with \<open>do_version_check\<close> has sent one \<^verbatim>\<open>GET /version\<close>;
  \<open>register_endpoint\<close> on it sends exactly one more, two in all. The one of
  \<open>register_endpoint\<close> is sent whatever the flag was: a client constructed without
  the check has sent none and ends with one.
\<close>

theorem register_endpoint_second_version_call:
  assumes "init env task_group_id do_version_check asynchronous_arg = Inr c"
  shows "count_list (web_calls c) GetVersion = (if do_version_check then 1 else 0)
       \<and> count_list (web_calls (snd (register_endpoint env c name endpoint_id metadata endpoint_version)))
            GetVersion = (if do_version_check then 2 else 1)"
proof -
  obtain tail where t:
    "web_calls (snd (register_endpoint env c name endpoint_id metadata endpoint_version))
       = web_calls c @ GetVersion # tail" "GetVersion \<notin> set tail"
    using register_endpoint_calls by blast
  have "count_list tail GetVersion = 0"
    using t(2) by (simp add: count_list_0_iff)
  then show ?thesis
    using init_web_calls [OF assms] t(1) by simp
qed

lemma sample_init_false: "\<exists>c. init sample_env tg False asy = Inr c"
  by (simp add: init_def)

theorem register_endpoint_second_version_call_witness:
  "map_sum id (\<lambda>c. count_list (web_calls (snd (register_endpoint sample_env c ''ep'' ''id-0'' JNull (Some ''1.0.0'')))) GetVersion)
     (init sample_env NoneArg True False) = Inr 2
 \<and> map_sum id (\<lambda>c. count_list (web_calls (snd (register_endpoint sample_env c ''ep'' ''id-0'' JNull (Some ''1.0.0'')))) GetVersion)
     (init sample_env NoneArg False False) = Inr 1"
proof -
  obtain c1 where c1: "init sample_env NoneArg True False = Inr c1"
    using sample_init_true by blast
  obtain c2 where c2: "init sample_env NoneArg False False = Inr c2"
    using sample_init_false by blast
  show ?thesis
    using register_endpoint_second_version_call [OF c1, of "''ep''" "''id-0''" JNull "Some ''1.0.0''"]
      register_endpoint_second_version_call [OF c2, of "''ep''" "''id-0''" JNull "Some ''1.0.0''"]
    by (simp add: c1 c2)
qed

subsection \<open>The task status table\<close>

lemma update_task_table_raise:
  "update_task_table env c return_msg task_id = (Inl e, c') \<Longrightarrow> c' = c"
  by (auto simp: update_task_table_def split: sum.splits jval.splits)

lemma update_task_table_return:
  "update_task_table env c return_msg task_id = (Inr st, c') \<Longrightarrow>
   c' = c\<lparr>task_status_table := (task_status_table c)(task_id \<mapsto> st)\<rparr>"
  by (auto simp: update_task_table_def split: sum.splits jval.splits)

lemma build_status_missing:
  assumes "non_pending r_dict"
    and "map_of r_dict ''result'' = None" and "map_of r_dict ''exception'' = None"
  shows "build_status env r_dict = Inl (ValueError ''non-pending result is missing result data'')"
  using assms by (auto simp: build_status_def non_pending_def Let_def)

lemma build_status_undeserializable:
  assumes "non_pending r_dict"
    and "map_of r_dict ''result'' = Some res" and "deserialize env res = None"
    and "map_of r_dict ''completion_t'' = Some ct"
  shows "build_status env r_dict = Inl (SerializationError ''Result Object Deserialization'')"
  using assms by (auto simp: build_status_def non_pending_def Let_def)

lemma build_status_exception:
  assumes "non_pending r_dict"
    and "map_of r_dict ''result'' = None" and "map_of r_dict ''exception'' = Some exc"
    and "map_of r_dict ''completion_t'' = Some ct"
  shows "build_status env r_dict = Inl (FuncxTaskExecutionFailed exc ct)"
  using assms by (auto simp: build_status_def non_pending_def Let_def)

lemma update_task_table_build_error:
  "load_message env return_msg = Inr (JObj r_dict) \<Longrightarrow> build_status env r_dict = Inl e \<Longrightarrow>
   update_task_table env c return_msg task_id = (Inl e, c)"
  by (simp add: update_task_table_def)

text \<open>
  C8. Whenever \<open>_update_task_table\<close> raises, the client is as it was, so the table
  has no new entry for the task; the entry is written only when the call returns, and
  is the status returned. A finished message (status \<open>success\<close> or \<open>failed\<close>) raises
  \<open>ValueError\<close> when it has neither a result nor an exception, \<open>SerializationError\<close>
  when its result does not deserialize, and \<open>FuncxTaskExecutionFailed\<close> when it has an
  exception and no result.
\<close>

theorem update_task_table_raise_leaves_table:
  "(update_task_table env c return_msg task_id = (Inl e, c') \<longrightarrow>
      c' = c \<and> task_status_table c' task_id = task_status_table c task_id)
 \<and> (update_task_table env c return_msg task_id = (Inr st, c') \<longrightarrow>
      c' = c\<lparr>task_status_table := (task_status_table c)(task_id \<mapsto> st)\<rparr>)
 \<and> (load_message env return_msg = Inr (JObj r_dict) \<and> non_pending r_dict \<longrightarrow>
      (map_of r_dict ''result'' = None \<and> map_of r_dict ''exception'' = None \<longrightarrow>
         update_task_table env c return_msg task_id
           = (Inl (ValueError ''non-pending result is missing result data''), c))
    \<and> (map_of r_dict ''result'' = Some res \<and> deserialize env res = None
          \<and> map_of r_dict ''completion_t'' = Some ct \<longrightarrow>
         update_task_table env c return_msg task_id
           = (Inl (SerializationError ''Result Object Deserialization''), c))
    \<and> (map_of r_dict ''result'' = None \<and> map_of r_dict ''exception'' = Some exc
          \<and> map_of r_dict ''completion_t'' = Some ct \<longrightarrow>
         update_task_table env c return_msg task_id
           = (Inl (FuncxTaskExecutionFailed exc ct), c)))"
  using update_task_table_raise [of env c return_msg task_id e c']
    update_task_table_return [of env c return_msg task_id st c']
    update_task_table_build_error [of env return_msg r_dict _ c task_id]
    build_status_missing [of r_dict env]
    build_status_undeserializable [of r_dict res env ct]
    build_status_exception [of r_dict exc ct env]
  by auto

lemma lower_failed: "lower ''FAILED'' = ''failed''"
  by code_simp

lemma lower_success: "lower ''success'' = ''success''"
  by code_simp

theorem update_task_table_raise_leaves_table_witness:
  "update_task_table sample_env sample_client (JObj [(''status'', JStr ''FAILED'')]) ''t1''
     = (Inl (ValueError ''non-pending result is missing result data''), sample_client)
 \<and> update_task_table sample_env sample_client
       (JObj [(''status'', JStr ''success''), (''result'', JStr ''''), (''completion_t'', JNum 5)]) ''t1''
     = (Inl (SerializationError ''Result Object Deserialization''), sample_client)
 \<and> update_task_table sample_env sample_client
       (JObj [(''status'', JStr ''FAILED''), (''exception'', JStr ''boom''), (''completion_t'', JNum 5)]) ''t1''
     = (Inl (FuncxTaskExecutionFailed (JStr ''boom'') (JNum 5)), sample_client)
 \<and> task_status_table (snd (update_task_table sample_env sample_client
       (JObj [(''status'', JStr ''FAILED''), (''exception'', JStr ''boom''), (''completion_t'', JNum 5)]) ''t1'')) ''t1''
     = None"
proof -
  let ?m1 = "[(''status'', JStr ''FAILED'')]"
  let ?m2 = "[(''status'', JStr ''success''), (''result'', JStr ''''), (''completion_t'', JNum 5)]"
  let ?m3 = "[(''status'', JStr ''FAILED''), (''exception'', JStr ''boom''), (''completion_t'', JNum 5)]"
  have n1: "non_pending ?m1" and n2: "non_pending ?m2" and n3: "non_pending ?m3"
    by (simp_all add: non_pending_def read_status_def lower_failed lower_success)
  have l: "\<And>m. load_message sample_env (JObj m) = Inr (JObj m)"
    by (simp add: load_message_def)
  have d: "deserialize sample_env (JStr '''') = None"
    by (simp add: sample_env_def)
  have t: "task_status_table sample_client ''t1'' = None"
    by (simp add: sample_client_def new_client_def)
  have a: "update_task_table sample_env sample_client (JObj ?m1) ''t1''
     = (Inl (ValueError ''non-pending result is missing result data''), sample_client)"
    using update_task_table_raise_leaves_table
      [of sample_env sample_client "JObj ?m1" "''t1''" _ _ _ ?m1] l n1
    by simp
  have b: "update_task_table sample_env sample_client (JObj ?m2) ''t1''
     = (Inl (SerializationError ''Result Object Deserialization''), sample_client)"
    using update_task_table_raise_leaves_table
      [of sample_env sample_client "JObj ?m2" "''t1''" _ _ _ ?m2 "JStr ''''" "JNum 5"] l n2 d
    by simp
  have c: "update_task_table sample_env sample_client (JObj ?m3) ''t1''
     = (Inl (FuncxTaskExecutionFailed (JStr ''boom'') (JNum 5)), sample_client)"
    using update_task_table_raise_leaves_table
      [of sample_env sample_client "JObj ?m3" "''t1''" _ _ _ ?m3 _ "JNum 5" "JStr ''boom''"] l n3
    by simp
  show ?thesis
    using a b c t by simp
qed

lemma update_task_table_effect:
  assumes "update_task_table env c data task_id = (out, c1)"
  shows "web_calls c1 = web_calls c"
    and "t \<noteq> task_id \<Longrightarrow> task_status_table c1 t = task_status_table c t"
  using assms update_task_table_raise [of env c data task_id _ c1]
    update_task_table_return [of env c data task_id _ c1]
  by (cases out; simp)+

lemma batch_result_loop_calls:
  "web_calls (snd (batch_result_loop env r pend ids results c)) = web_calls c"
proof (induction ids arbitrary: results c)
  case Nil
  show ?case by simp
next
  case (Cons task_id rest)
  show ?case
  proof (cases "task_id \<in> set pend")
    case False
    then show ?thesis using Cons.IH by (simp split: option.splits)
  next
    case True
    then show ?thesis
      using Cons.IH update_task_table_effect(1)
      by (auto split: sum.splits prod.splits)
  qed
qed

lemma batch_result_loop_cached:
  assumes "\<forall>t \<in> set ids. t \<notin> set pend \<longrightarrow> task_status_table c t \<noteq> None"
  shows "\<exists>res. fst (batch_result_loop env r pend ids results c) = Inr res
           \<and> (\<forall>t. t \<notin> set pend \<longrightarrow>
                 res t = (if t \<in> set ids then task_status_table c t else results t))"
  using assms
proof (induction ids arbitrary: results c)
  case Nil
  show ?case by simp
next
  case (Cons task_id rest)
  show ?case
  proof (cases "task_id \<in> set pend")
    case False
    then obtain task where task: "task_status_table c task_id = Some task"
      using Cons.prems by auto
    have "\<forall>t \<in> set rest. t \<notin> set pend \<longrightarrow> task_status_table c t \<noteq> None"
      using Cons.prems by simp
    from Cons.IH [OF this, of "results(task_id \<mapsto> task)"] obtain res where
      r: "fst (batch_result_loop env r pend rest (results(task_id \<mapsto> task)) c) = Inr res"
        "\<forall>t. t \<notin> set pend \<longrightarrow>
             res t = (if t \<in> set rest then task_status_table c t
                      else (results(task_id \<mapsto> task)) t)"
      by blast
    have "\<forall>t. t \<notin> set pend \<longrightarrow>
            res t = (if t \<in> set (task_id # rest) then task_status_table c t else results t)"
      using r(2) task by (auto simp: fun_upd_apply)
    with r(1) False task show ?thesis by simp
  next
    case True
    have keep: "\<exists>res. fst (batch_result_loop env r pend rest results' c') = Inr res
           \<and> (\<forall>t. t \<notin> set pend \<longrightarrow>
                 res t = (if t \<in> set (task_id # rest) then task_status_table c t else results t))"
      if tab: "\<forall>t. t \<noteq> task_id \<longrightarrow> task_status_table c' t = task_status_table c t"
        and res: "\<forall>t. t \<noteq> task_id \<longrightarrow> results' t = results t"
      for results' c'
    proof -
      have "\<forall>t \<in> set rest. t \<notin> set pend \<longrightarrow> task_status_table c' t \<noteq> None"
        using Cons.prems tab True by auto
      from Cons.IH [OF this, of results'] obtain res where
        r: "fst (batch_result_loop env r pend rest results' c') = Inr res"
          "\<forall>t. t \<notin> set pend \<longrightarrow>
                 res t = (if t \<in> set rest then task_status_table c' t else results' t)"
        by blast
      have "\<forall>t. t \<notin> set pend \<longrightarrow>
                 res t = (if t \<in> set (task_id # rest) then task_status_table c t else results t)"
        using r(2) tab res True by auto
      with r(1) show ?thesis by blast
    qed
    show ?thesis
    proof (cases "subscript r ''results''")
      case (Inl e)
      with True keep [of c results] show ?thesis by simp
    next
      case (Inr rs)
      note rs = this
      show ?thesis
      proof (cases "subscript rs task_id")
        case (Inl e)
        with True rs keep [of c results] show ?thesis by simp
      next
        case (Inr data)
        obtain out c1 where u: "update_task_table env c data task_id = (out, c1)"
          by (cases "update_task_table env c data task_id")
        have tab: "\<forall>t. t \<noteq> task_id \<longrightarrow> task_status_table c1 t = task_status_table c t"
          using update_task_table_effect(2) [OF u] by blast
        show ?thesis
        proof (cases out)
          case (Inl e)
          with True rs Inr u keep [of c1 results, OF tab] show ?thesis by simp
        next
          case (Inr rets)
          with True rs \<open>subscript rs task_id = Inr data\<close> u
            keep [of c1 "results(task_id \<mapsto> rets)", OF tab]
          show ?thesis by simp
        qed
      qed
    qed
  qed
qed

lemma not_pending_cached:
  "t \<in> set ids \<Longrightarrow> t \<notin> set (filter (still_pending c) ids) \<Longrightarrow> task_status_table c t \<noteq> None"
  by (auto simp: still_pending_def split: option.splits)

lemma get_task_cached:
  assumes "task_status_table c task_id = Some entry" and "\<not> ts_pending entry"
  shows "get_task env c task_id = (Inr entry, c)"
  using assms by (simp add: get_task_def)

lemma get_batch_result_calls:
  "web_calls (snd (get_batch_result env c ids))
     = web_calls c @ (if filter (still_pending c) ids = [] then []
                      else [GetBatchStatus (filter (still_pending c) ids)])"
  by (simp add: get_batch_result_def Let_def batch_result_loop_calls called_def
        split: sum.splits)

lemma get_batch_result_cached:
  assumes "task_status_table c task_id = Some entry" and "\<not> ts_pending entry"
    and "task_id \<in> set ids"
  shows "case fst (get_batch_result env c ids) of
           Inr results \<Rightarrow> results task_id = Some entry
         | Inl e \<Rightarrow> filter (still_pending c) ids \<noteq> []
                    \<and> ws_get_batch_status env (web_calls c) (filter (still_pending c) ids) = Inl e"
proof -
  let ?pend = "filter (still_pending c) ids"
  have np: "task_id \<notin> set ?pend"
    using assms by (simp add: still_pending_def)
  have loop: "\<exists>res. fst (batch_result_loop env r ?pend ids Map.empty c') = Inr res
                \<and> res task_id = Some entry"
    if "task_status_table c' = task_status_table c" for r c'
  proof -
    have "\<forall>t \<in> set ids. t \<notin> set ?pend \<longrightarrow> task_status_table c' t \<noteq> None"
      using that not_pending_cached [of _ ids c] by simp
    from batch_result_loop_cached [OF this, of env r Map.empty]
    show ?thesis using np assms that by auto
  qed
  show ?thesis
  proof (cases "?pend = []")
    case True
    with loop [of c JNull] show ?thesis
      by (auto simp: get_batch_result_def)
  next
    case False
    show ?thesis
    proof (cases "ws_get_batch_status env (web_calls c) ?pend")
      case (Inl e)
      with False show ?thesis by (simp add: get_batch_result_def Let_def)
    next
      case (Inr r)
      have "task_status_table (called (GetBatchStatus ?pend) c) = task_status_table c"
        by (simp add: called_def)
      from loop [OF this, of r] False Inr show ?thesis
        by (auto simp: get_batch_result_def Let_def)
    qed
  qed
qed

text \<open>
  C9. For a task whose cached entry is not pending, \<open>get_task\<close> returns the entry and
  leaves the client as it was: no request is recorded and the table is the same, so a
  second call gives the same answer. \<open>get_batch_result\<close> sends at most one request, for
  exactly the ids of the list that are still pending, which the task is not among; and
  when it returns, its answer for the task is the cached entry (it raises only when
  that one request does).
\<close>

theorem completed_task_answered_from_cache:
  assumes "task_status_table c task_id = Some entry" and "\<not> ts_pending entry"
  shows "get_task env c task_id = (Inr entry, c)
       \<and> get_task env (snd (get_task env c task_id)) task_id = get_task env c task_id
       \<and> task_id \<notin> set (filter (still_pending c) ids)
       \<and> web_calls (snd (get_batch_result env c ids))
           = web_calls c @ (if filter (still_pending c) ids = [] then []
                            else [GetBatchStatus (filter (still_pending c) ids)])
       \<and> (task_id \<in> set ids \<longrightarrow>
            (case fst (get_batch_result env c ids) of
               Inr results \<Rightarrow> results task_id = Some entry
             | Inl e \<Rightarrow> filter (still_pending c) ids \<noteq> []
                        \<and> ws_get_batch_status env (web_calls c) (filter (still_pending c) ids)
                            = Inl e))"
  using get_task_cached [OF assms] get_batch_result_calls [of env c ids]
    get_batch_result_cached [OF assms, of ids env] assms
  by (simp add: still_pending_def)

theorem completed_task_answered_from_cache_witness:
  "get_task sample_env cached_client ''t1'' = (Inr done_entry, cached_client)
 \<and> web_calls (snd (get_batch_result sample_env cached_client [''t1'', ''t2'']))
     = [GetBatchStatus [''t2'']]
 \<and> map_sum id (\<lambda>results. results ''t1'') (fst (get_batch_result sample_env cached_client [''t1'', ''t2'']))
     = Inr (Some done_entry)"
proof -
  have e: "task_status_table cached_client ''t1'' = Some done_entry"
    by (simp add: cached_client_def)
  have p: "\<not> ts_pending done_entry"
    by (simp add: done_entry_def)
  have f: "filter (still_pending cached_client) [''t1'', ''t2''] = [''t2'']"
    by (simp add: still_pending_def cached_client_def done_entry_def)
  have w: "web_calls cached_client = []"
    by (simp add: cached_client_def sample_client_def new_client_def)
  have s: "\<And>h ts e. ws_get_batch_status sample_env h ts \<noteq> Inl e"
    by (simp add: sample_env_def)
  show ?thesis
    using completed_task_answered_from_cache [OF e p, of sample_env "[''t1'', ''t2'']", unfolded f]
    by (cases "fst (get_batch_result sample_env cached_client [''t1'', ''t2''])")
       (simp_all add: f w s)
qed

subsection \<open>Batch submission\<close>

lemma collect_task_uuids_first_raise:
  assumes "\<forall>x \<in> set pre.
             (\<exists>u. subscript x ''task_uuid'' = Inr u)
             \<and> (\<exists>code. subscript x ''http_status_code'' = Inr code
                    \<and> (code = JNum 200 \<or> handle_response_errors env x = None))"
    and "subscript failed ''task_uuid'' = Inr u"
    and "subscript failed ''http_status_code'' = Inr code" and "code \<noteq> JNum 200"
    and "handle_response_errors env failed = Some err"
  shows "collect_task_uuids env (pre @ failed # post) acc = Inl err"
  using assms
proof (induction pre arbitrary: acc)
  case Nil
  then show ?case by simp
next
  case (Cons x pre)
  then obtain v k where x: "subscript x ''task_uuid'' = Inr v"
    "subscript x ''http_status_code'' = Inr k"
    "k = JNum 200 \<or> handle_response_errors env x = None"
    by auto
  have "collect_task_uuids env (pre @ failed # post) (acc @ [v]) = Inl err"
    using Cons by simp
  with x show ?case by auto
qed

text \<open>
  C4, as the spec states it: \<open>batch_run\<close> raises the error of the first entry whose
  \<open>http_status_code\<close> is not 200. In the sample answer the first such entry is that of
  task \<open>b\<close>, with code 500; \<open>handle_response_errors\<close> returns for it, the loop goes on,
  and the error raised is that of the later entry of task \<open>c\<close>.
\<close>

theorem batch_run_later_error_counterexample:
  "ws_submit sample_env (web_calls sample_client) (prepare sample_batch)
     = Inr (JObj [(''results'',
         JArr [JObj [(''task_uuid'', JStr ''a''), (''http_status_code'', JNum 200)],
               JObj [(''task_uuid'', JStr ''b''), (''http_status_code'', JNum 500)],
               JObj [(''task_uuid'', JStr ''c''), (''http_status_code'', JNum 404),
                     (''status'', JStr ''Failed'')]])])
 \<and> handle_response_errors sample_env
       (JObj [(''task_uuid'', JStr ''b''), (''http_status_code'', JNum 500)]) = None
 \<and> fst (batch_run sample_env sample_client sample_batch) = Inl (ServiceError ''c'')"
  by (simp add: sample_env_def sample_client_def sample_batch_def new_client_def
        batch_run_def called_def)

text \<open>
  C4, amended. When the answer to a batch submission lists an entry whose
  \<open>http_status_code\<close> is not 200 and for which \<open>handle_response_errors\<close> raises, after
  entries that each have code 200 or are passed over by \<open>handle_response_errors\<close>,
  \<open>batch_run\<close> raises the error that \<open>handle_response_errors\<close> raises for that entry,
  whatever the entries after it are: a later failure is never the one raised.
\<close>

theorem batch_run_raises_first_handler_error:
  assumes "tasks b \<noteq> []"
    and "ws_submit env (web_calls c) (prepare b) = Inr r"
    and "subscript r ''results'' = Inr (JArr (pre @ failed # post))"
    and "\<forall>x \<in> set pre.
           (\<exists>u. subscript x ''task_uuid'' = Inr u)
           \<and> (\<exists>code. subscript x ''http_status_code'' = Inr code
                  \<and> (code = JNum 200 \<or> handle_response_errors env x = None))"
    and "subscript failed ''task_uuid'' = Inr u"
    and "subscript failed ''http_status_code'' = Inr code" and "code \<noteq> JNum 200"
    and "handle_response_errors env failed = Some err"
  shows "fst (batch_run env c b) = Inl err"
  using assms(1-3) collect_task_uuids_first_raise [OF assms(4-8), of post "[]"]
  by (simp add: batch_run_def Let_def)

theorem batch_run_raises_first_handler_error_witness:
  "fst (batch_run sample_env sample_client sample_batch) = Inl (ServiceError ''c'')"
proof -
  let ?ok = "JObj [(''task_uuid'', JStr ''a''), (''http_status_code'', JNum 200)]"
  let ?passed = "JObj [(''task_uuid'', JStr ''b''), (''http_status_code'', JNum 500)]"
  let ?bad = "JObj [(''task_uuid'', JStr ''c''), (''http_status_code'', JNum 404),
                    (''status'', JStr ''Failed'')]"
  have 1: "tasks sample_batch \<noteq> []"
    by (simp add: sample_batch_def)
  have 2: "ws_submit sample_env (web_calls sample_client) (prepare sample_batch)
             = Inr (JObj [(''results'', JArr [?ok, ?passed, ?bad])])"
    by (simp add: sample_env_def)
  have 3: "subscript (JObj [(''results'', JArr [?ok, ?passed, ?bad])]) ''results''
             = Inr (JArr ([?ok, ?passed] @ ?bad # []))"
    by simp
  have 4: "\<forall>x \<in> set [?ok, ?passed].
             (\<exists>u. subscript x ''task_uuid'' = Inr u)
             \<and> (\<exists>code. subscript x ''http_status_code'' = Inr code
                    \<and> (code = JNum 200 \<or> handle_response_errors sample_env x = None))"
    by (simp add: sample_env_def)
  have 5: "subscript ?bad ''task_uuid'' = Inr (JStr ''c'')"
    by simp
  have 6: "subscript ?bad ''http_status_code'' = Inr (JNum 404)"
    by simp
  have 7: "JNum 404 \<noteq> JNum 200"
    by simp
  have 8: "handle_response_errors sample_env ?bad = Some (ServiceError ''c'')"
    by (simp add: sample_env_def)
  show ?thesis
    by (rule batch_run_raises_first_handler_error [OF 1 2 3 4 5 6 7 8])
qed

subsection \<open>Version mismatch\<close>













section \<open>Properties of the scaling strategy\<close>

lemma tick_bounds:
  assumes "min_blocks cfg \<le> blocks" and "blocks \<le> max_blocks cfg"
  shows "min_blocks cfg \<le> tick cfg blocks obs \<and> tick cfg blocks obs \<le> max_blocks cfg"
  using assms by (auto simp: tick_def decide_def target_blocks_def Let_def)

lemma foldl_tick_bounds:
  assumes "min_blocks cfg \<le> blocks" and "blocks \<le> max_blocks cfg"
  shows "min_blocks cfg \<le> foldl (tick cfg) blocks obss
       \<and> foldl (tick cfg) blocks obss \<le> max_blocks cfg"
  using assms
proof (induction obss arbitrary: blocks)
  case Nil
  then show ?case by simp
next
  case (Cons obs obss)
  from tick_bounds [OF Cons.prems, of obs] Cons.IH [of "tick cfg blocks obs"]
  show ?case by simp
qed

lemma run_strategy_bounds:
  "starts_within_limits cfg \<Longrightarrow>
   min_blocks cfg \<le> run_strategy cfg obss \<and> run_strategy cfg obss \<le> max_blocks cfg"
  unfolding run_strategy_def
  by (rule foldl_tick_bounds) (simp_all add: starts_within_limits_def)

lemma tick_idle:
  assumes "min_blocks cfg \<le> blocks" and "max_idletime cfg \<le> idle_time obs"
    and "target_blocks cfg obs \<le> blocks"
  shows "tick cfg blocks obs = min_blocks cfg"
  using assms by (auto simp: tick_def decide_def Let_def)

text \<open>
  C7, as the spec states it: the block count is never above \<open>max_blocks\<close>, and after
  \<open>max_idletime\<close> seconds without a submission it is \<open>min_blocks\<close>. A pool configured
  to start with five blocks under a limit of two has five after a tick; and with the
  limits of the Polaris configuration, a tick that sees five idle seconds and one
  outstanding task that no block covers scales out to one block.
\<close>

theorem idle_scale_in_counterexample:
  "max_blocks oversized_config < run_strategy oversized_config [\<lparr>outstanding = 0, idle_time = 0\<rparr>]
 \<and> starts_within_limits sample_config
 \<and> max_idletime sample_config \<le> idle_time \<lparr>outstanding = 1, idle_time = 5\<rparr>
 \<and> run_strategy sample_config [\<lparr>outstanding = 1, idle_time = 5\<rparr>] = 1
 \<and> run_strategy sample_config [\<lparr>outstanding = 1, idle_time = 5\<rparr>]
       \<noteq> min_blocks sample_config"
  by (simp add: oversized_config_def sample_config_def starts_within_limits_def
        run_strategy_def tick_def decide_def target_blocks_def blocks_to_cover_def)

text \<open>
  C7, amended. When the initial block count lies between \<open>min_blocks\<close> and
  \<open>max_blocks\<close>, the block count stays between them after every run of ticks; and a
  tick that sees \<open>max_idletime\<close> seconds without a submission, while the allocated
  blocks cover the outstanding tasks (up to \<open>max_blocks\<close>), leaves the block count at
  \<open>min_blocks\<close>.
\<close>

theorem scaling_within_bounds:
  assumes "starts_within_limits cfg"
  shows "min_blocks cfg \<le> run_strategy cfg obss
       \<and> run_strategy cfg obss \<le> max_blocks cfg
       \<and> (max_idletime cfg \<le> idle_time obs
            \<and> target_blocks cfg obs \<le> run_strategy cfg obss \<longrightarrow>
            run_strategy cfg (obss @ [obs]) = min_blocks cfg)"
proof -
  have b: "min_blocks cfg \<le> run_strategy cfg obss \<and> run_strategy cfg obss \<le> max_blocks cfg"
    using assms by (rule run_strategy_bounds)
  have "run_strategy cfg (obss @ [obs]) = tick cfg (run_strategy cfg obss) obs"
    by (simp add: run_strategy_def)
  with b tick_idle [of cfg "run_strategy cfg obss" obs] show ?thesis
    by simp
qed

lemma sample_scaled_out: "run_strategy sample_config [\<lparr>outstanding = 3, idle_time = 0\<rparr>] = 2"
  by (simp add: sample_config_def run_strategy_def tick_def decide_def target_blocks_def
        blocks_to_cover_def)

theorem scaling_within_bounds_witness:
  "run_strategy sample_config [\<lparr>outstanding = 3, idle_time = 0\<rparr>] \<le> 2
 \<and> run_strategy sample_config
      ([\<lparr>outstanding = 3, idle_time = 0\<rparr>] @ [\<lparr>outstanding = 1, idle_time = 5\<rparr>]) = 0"
proof -
  have w: "starts_within_limits sample_config"
    by (simp add: sample_config_def starts_within_limits_def)
  have m: "min_blocks sample_config = 0" "max_blocks sample_config = 2"
    "max_idletime sample_config = 2"
    by (simp_all add: sample_config_def)
  have t: "target_blocks sample_config \<lparr>outstanding = 1, idle_time = 5\<rparr> = 1"
    by (simp add: sample_config_def target_blocks_def blocks_to_cover_def)
  have c: "max_idletime sample_config \<le> idle_time \<lparr>outstanding = 1, idle_time = 5\<rparr>
         \<and> target_blocks sample_config \<lparr>outstanding = 1, idle_time = 5\<rparr>
             \<le> run_strategy sample_config [\<lparr>outstanding = 3, idle_time = 0\<rparr>]"
    unfolding t sample_scaled_out m by simp
  from scaling_within_bounds [OF w, of "[\<lparr>outstanding = 3, idle_time = 0\<rparr>]"
      "\<lparr>outstanding = 1, idle_time = 5\<rparr>"] c
  have "run_strategy sample_config [\<lparr>outstanding = 3, idle_time = 0\<rparr>] \<le> max_blocks sample_config
      \<and> run_strategy sample_config
           ([\<lparr>outstanding = 3, idle_time = 0\<rparr>] @ [\<lparr>outstanding = 1, idle_time = 5\<rparr>])
          = min_blocks sample_config"
    by blast
  then show ?thesis
    unfolding m .
qed

section \<open>Properties of the Interchange\<close>

lemma ix_inv_init: "ix_inv cd ts (ix_init ts)"
  by (simp add: ix_inv_def ix_init_def)

lemma ix_inv_step:
  assumes "ix_step cd s s'" and "ix_inv cd ts s"
  shows "ix_inv cd ts s'"
  using assms
proof (cases rule: ix_step.cases)
  case (ingress t q)
  with assms(2) show ?thesis by (auto simp: ix_inv_def)
next
  case (complete t)
  with assms(2) have "echoes cd ts (pack cd (mock_executor t))"
    by (auto simp: ix_inv_def echoes_def)
  with complete assms(2) show ?thesis
    by (auto simp: ix_inv_def dest: notin_set_remove1)
next
  case (spool_put i body rest)
  with assms(2) show ?thesis by (auto simp: ix_inv_def)
next
  case (publish i body confirmed rest)
  with assms(2) show ?thesis by (auto simp: ix_inv_def)
next
  case (spool_delete i body rest)
  with assms(2) show ?thesis by (auto simp: ix_inv_def)
qed

lemma ix_owed_init: "ix_owed cd ts (ix_init ts)"
  by (simp add: ix_owed_def ix_init_def)

lemma ix_owed_step:
  assumes "ix_step cd s s'" and "ix_owed cd ts s"
  shows "ix_owed cd ts s'"
  using assms
proof (cases rule: ix_step.cases)
  case (ingress t q)
  with assms(2) show ?thesis by (auto simp: ix_owed_def)
next
  case (complete t)
  have "x \<in> set (in_flight s) \<Longrightarrow> x \<noteq> t \<Longrightarrow> x \<in> set (remove1 t (in_flight s))" for x
    by simp
  with complete assms(2) show ?thesis
    unfolding ix_owed_def by (simp; blast)
next
  case (spool_put i body rest)
  with assms(2) show ?thesis
    unfolding ix_owed_def by (simp; blast)
next
  case (publish i body confirmed rest)
  with assms(2) show ?thesis
    unfolding ix_owed_def by (simp; blast)
next
  case (spool_delete i body rest)
  with assms(2) show ?thesis
    unfolding ix_owed_def by (simp; blast)
qed

lemma ix_reachable_invariants:
  assumes "ix_reachable cd ts s"
  shows "ix_inv cd ts s \<and> ix_owed cd ts s"
  using assms unfolding ix_reachable_def
proof (induction rule: rtranclp_induct)
  case base
  show ?case by (simp add: ix_inv_init ix_owed_init)
next
  case (step y z)
  then show ?case by (simp add: ix_inv_step ix_owed_step)
qed

lemma pump_one:
  "(ix_step cd)\<^sup>*\<^sup>* (between_tasks (t # q) rq)
                  (between_tasks q (rq @ [pack cd (mock_executor t)]))"
proof -
  let ?i = "tm_task_id t" and ?b = "pack cd (mock_executor t)"
  let ?s1 = "\<lparr>task_queue = q, in_flight = [t], yielded = [], spool = [], result_queue = rq\<rparr>"
  let ?s2 = "\<lparr>task_queue = q, in_flight = [], yielded = [(?i, ?b)], spool = [],
              result_queue = rq\<rparr>"
  let ?s3 = "\<lparr>task_queue = q, in_flight = [], yielded = [], spool = [(?i, ?b, False)],
              result_queue = rq\<rparr>"
  let ?s4 = "\<lparr>task_queue = q, in_flight = [], yielded = [], spool = [(?i, ?b, True)],
              result_queue = rq @ [?b]\<rparr>"
  have 1: "ix_step cd (between_tasks (t # q) rq) ?s1"
    using ix_step.ingress [of "between_tasks (t # q) rq" t q cd]
    by (simp add: between_tasks_def)
  have 2: "ix_step cd ?s1 ?s2"
    using ix_step.complete [of t ?s1 cd] by simp
  have 3: "ix_step cd ?s2 ?s3"
    using ix_step.spool_put [of ?s2 ?i ?b "[]" cd] by simp
  have 4: "ix_step cd ?s3 ?s4"
    using ix_step.publish [of ?s3 ?i ?b False "[]" cd] by simp
  have 5: "ix_step cd ?s4 (between_tasks q (rq @ [?b]))"
    using ix_step.spool_delete [of ?s4 ?i ?b "[]" cd] by (simp add: between_tasks_def)
  from 1 2 3 4 5 show ?thesis
    by (meson rtranclp.rtrancl_into_rtrancl rtranclp.rtrancl_refl)
qed

lemma pump_all:
  "(ix_step cd)\<^sup>*\<^sup>* (between_tasks ts rq)
                  (between_tasks [] (rq @ map (\<lambda>t. pack cd (mock_executor t)) ts))"
proof (induction ts arbitrary: rq)
  case Nil
  show ?case by simp
next
  case (Cons t ts)
  from pump_one [of cd t ts rq] Cons.IH [of "rq @ [pack cd (mock_executor t)]"]
  show ?case by simp
qed

lemma quiescent_reachable:
  "ix_reachable cd ts (between_tasks [] (map (\<lambda>t. pack cd (mock_executor t)) ts))
   \<and> quiescent (between_tasks [] (map (\<lambda>t. pack cd (mock_executor t)) ts))"
  using pump_all [of cd ts "[]"]
  by (simp add: ix_reachable_def ix_init_def between_tasks_def quiescent_def)

text \<open>
  C1. With the identity mock executor and a wire format that decodes what it encoded,
  every body that ever reaches the result queue decodes to a result with the id and
  the buffer of a published task; once nothing is left in between, the result queue
  holds such a body for every published task; and the run can always get there.
\<close>

theorem task_result_round_trip:
  assumes "\<forall>t \<in> set ts. unpack cd (pack cd (mock_executor t)) = Some (mock_executor t)"
  shows "(ix_reachable cd ts s \<and> body \<in> set (result_queue s) \<longrightarrow>
            (\<exists>t \<in> set ts. unpack cd body
               = Some \<lparr>rm_task_id = tm_task_id t, rm_data = tm_task_buffer t\<rparr>))
       \<and> (ix_reachable cd ts s \<and> quiescent s \<and> t \<in> set ts \<longrightarrow>
            (\<exists>body \<in> set (result_queue s). unpack cd body
               = Some \<lparr>rm_task_id = tm_task_id t, rm_data = tm_task_buffer t\<rparr>))
       \<and> (\<exists>s'. ix_reachable cd ts s' \<and> quiescent s')"
proof (intro conjI impI)
  assume a: "ix_reachable cd ts s \<and> body \<in> set (result_queue s)"
  then have "echoes cd ts body"
    using ix_reachable_invariants [of cd ts s] by (simp add: ix_inv_def)
  then show "\<exists>t \<in> set ts. unpack cd body
               = Some \<lparr>rm_task_id = tm_task_id t, rm_data = tm_task_buffer t\<rparr>"
    using assms by (auto simp: echoes_def mock_executor_def)
next
  assume a: "ix_reachable cd ts s \<and> quiescent s \<and> t \<in> set ts"
  then have "ix_owed cd ts s"
    using ix_reachable_invariants [of cd ts s] by simp
  with a have "pack cd (mock_executor t) \<in> set (result_queue s)"
    by (auto simp: ix_owed_def quiescent_def)
  moreover have "unpack cd (pack cd (mock_executor t))
                   = Some \<lparr>rm_task_id = tm_task_id t, rm_data = tm_task_buffer t\<rparr>"
    using assms a by (simp add: mock_executor_def)
  ultimately show "\<exists>body \<in> set (result_queue s). unpack cd body
               = Some \<lparr>rm_task_id = tm_task_id t, rm_data = tm_task_buffer t\<rparr>"
    by blast
next
  show "\<exists>s'. ix_reachable cd ts s' \<and> quiescent s'"
    using quiescent_reachable [of cd ts] by blast
qed

theorem task_result_round_trip_witness:
  "ix_reachable line_codec [canary] (between_tasks [] [pack line_codec (mock_executor canary)])
 \<and> quiescent (between_tasks [] [pack line_codec (mock_executor canary)])
 \<and> (\<exists>body \<in> set (result_queue (between_tasks [] [pack line_codec (mock_executor canary)])).
       unpack line_codec body = Some \<lparr>rm_task_id = ''T'', rm_data = ''abc''\<rparr>)"
proof -
  let ?s = "between_tasks [] [pack line_codec (mock_executor canary)]"
  have c: "\<forall>t \<in> set [canary].
             unpack line_codec (pack line_codec (mock_executor t)) = Some (mock_executor t)"
    by (simp add: line_codec_def canary_def mock_executor_def)
  have r: "ix_reachable line_codec [canary] ?s \<and> quiescent ?s"
    using quiescent_reachable [of line_codec "[canary]"] by simp
  have f: "tm_task_id canary = ''T''" "tm_task_buffer canary = ''abc''"
    by (simp_all add: canary_def)
  have "\<exists>body \<in> set (result_queue ?s). unpack line_codec body
          = Some \<lparr>rm_task_id = tm_task_id canary, rm_data = tm_task_buffer canary\<rparr>"
    using task_result_round_trip [OF c, of ?s "[]" canary] r by simp
  with r show ?thesis
    unfolding f by blast
qed

end
